theory Spec2Isabelle
  imports Complex_Main
begin

section \<open>Keyboard teleoperation: the key-state tracker and the command publisher\<close>

text \<open>
  This theory embeds \<^verbatim>\<open>jasonackerman_control/scripts/keyboard_teleop.py\<close>. The script keeps
  four booleans in the module-level list \<^verbatim>\<open>state\<close> (index 0 forward, 1 left, 2 backward,
  3 right), a derived boolean \<^verbatim>\<open>control\<close>, a publisher handle and a window handle. Key
  handlers change the list; a timer callback turns it into a drive command.

  Every handler body runs under \<^verbatim>\<open>with state_lock\<close>, so each one is modelled as one atomic
  function on the globals. The lock itself is not modelled.
\<close>

subsection \<open>Key mappings (lines 15-20)\<close>

definition UP :: string where "UP = ''w''"
definition LEFT :: string where "LEFT = ''a''"
definition DOWN :: string where "DOWN = ''s''"
definition RIGHT :: string where "RIGHT = ''d''"
definition QUIT :: string where "QUIT = ''q''"

subsection \<open>Data\<close>

text \<open>
  A key event as the handlers read it: the two attributes \<^verbatim>\<open>e.char\<close> and \<^verbatim>\<open>e.keysym\<close>.
\<close>

record event =
  char :: string
  keysym :: string

text \<open>
  The message: of an \<^verbatim>\<open>AckermannDriveStamped\<close> the script writes \<^verbatim>\<open>drive.speed\<close> and
  \<^verbatim>\<open>drive.steering_angle\<close> only. The two configured maxima are Python floats; the script
  only copies and negates them, both exact operations, so they are modelled as reals.
\<close>

record ack =
  speed :: real
  steering_angle :: real

datatype tk = Tk

datatype publisher = Publisher string

text \<open>
  Calls that leave the script: \<^verbatim>\<open>root.destroy()\<close>, \<^verbatim>\<open>rospy.signal_shutdown(reason)\<close> and
  \<^verbatim>\<open>state_pub.publish(ack)\<close>. The model records each call, in the order issued, in the field
  \<open>calls\<close> of the globals.
\<close>

datatype call =
    Destroy tk
  | SignalShutdown string
  | Publish publisher ack

text \<open>
  Exceptions: \<open>NameError\<close> is what Python raises when a global name is read before it has
  been bound, and carries the name; \<open>Exception\<close> stands for whatever a call into the
  toolkit or the middleware raises.
\<close>

datatype exn =
    Exception string
  | NameError string

text \<open>
  The globals of the module. Lines 22-27 bind \<^verbatim>\<open>state\<close>, \<^verbatim>\<open>state_pub\<close>, \<^verbatim>\<open>root\<close> and
  \<^verbatim>\<open>control\<close>; \<^verbatim>\<open>state_pub\<close> and \<^verbatim>\<open>root\<close> start as \<^verbatim>\<open>None\<close>. The names
  \<^verbatim>\<open>max_velocity\<close> and \<^verbatim>\<open>max_steering_angle\<close> are not bound at module level: \<^verbatim>\<open>main\<close>
  declares them global (line 105) and binds them on lines 110-111. Here \<open>None\<close> in these two
  fields means that the name is not bound yet. The field for \<^verbatim>\<open>root\<close> is named
  \<open>root_window\<close>, since \<open>root\<close> is the n-th root of the reals.
\<close>

record world =
  state :: "bool list"
  state_pub :: "publisher option"
  root_window :: "tk option"
  control :: bool
  max_velocity :: "real option"
  max_steering_angle :: "real option"
  calls :: "call list"

text \<open>
  The toolkit and the middleware are not part of the script. What a call into them does is
  a parameter of the model: given the calls issued so far and the call being made, the
  environment says whether that call raises.
\<close>

type_synonym env = "call list \<Rightarrow> call \<Rightarrow> exn option"

text \<open>
  A handler either returns or lets an exception escape; both leave globals behind.
\<close>

datatype outcome =
    Returned world
  | Raised exn world

fun world_of :: "outcome \<Rightarrow> world" where
  "world_of (Returned g) = g"
| "world_of (Raised x g) = g"

definition extern :: "env \<Rightarrow> call \<Rightarrow> world \<Rightarrow> outcome" where
  "extern en c g =
     (case en (calls g) c of
        None \<Rightarrow> Returned (g\<lparr>calls := calls g @ [c]\<rparr>)
      | Some x \<Rightarrow> Raised x (g\<lparr>calls := calls g @ [c]\<rparr>))"

text \<open>Sequencing of statements: what follows a raising statement is not run.\<close>

fun and_then :: "outcome \<Rightarrow> (world \<Rightarrow> outcome) \<Rightarrow> outcome" where
  "and_then (Returned g) k = k g"
| "and_then (Raised x g) k = Raised x g"

subsection \<open>The functions of the script\<close>

text \<open>\<^verbatim>\<open>keyeq\<close> (lines 30-32).\<close>

definition keyeq :: "event \<Rightarrow> string \<Rightarrow> bool" where
  "keyeq e c \<longleftrightarrow> char e = c \<or> keysym e = c"

text \<open>
  The statement \<^verbatim>\<open>control = sum(state) > 0\<close> that ends both key handlers (lines 48 and 70).
  Python sums the booleans as the integers 0 and 1.
\<close>

definition set_control :: "world \<Rightarrow> world" where
  "set_control g = g\<lparr>control := (sum_list (map of_bool (state g)) > (0::int))\<rparr>"

text \<open>
  \<^verbatim>\<open>keyup\<close> (lines 35-48). The list \<^verbatim>\<open>state\<close> is created with four entries and is only
  ever changed by assignment to one of its items, so the indices 0 to 3 are in range.
\<close>

definition keyup :: "event \<Rightarrow> world \<Rightarrow> world" where
  "keyup e g =
     set_control
       (if keyeq e UP then g\<lparr>state := (state g)[0 := False]\<rparr>
        else if keyeq e LEFT then g\<lparr>state := (state g)[1 := False]\<rparr>
        else if keyeq e DOWN then g\<lparr>state := (state g)[2 := False]\<rparr>
        else if keyeq e RIGHT then g\<lparr>state := (state g)[3 := False]\<rparr>
        else g)"

text \<open>
  \<^verbatim>\<open>shutdown\<close> (lines 96-100). \<^verbatim>\<open>if root\<close> tests the handle for \<^verbatim>\<open>None\<close>: a window object
  is always true. Nothing assigns \<^verbatim>\<open>root\<close> here, and no exception is caught.
\<close>

definition shutdown :: "env \<Rightarrow> world \<Rightarrow> outcome" where
  "shutdown en g =
     and_then
       (case root_window g of
          None \<Rightarrow> Returned g
        | Some w \<Rightarrow> extern en (Destroy w) g)
       (extern en (SignalShutdown ''shutdown''))"

text \<open>\<^verbatim>\<open>keydown\<close> (lines 51-70). The quit key is tested first.\<close>

definition keydown :: "env \<Rightarrow> event \<Rightarrow> world \<Rightarrow> outcome" where
  "keydown en e g =
     and_then
       (if keyeq e QUIT then shutdown en g
        else if keyeq e UP then Returned (g\<lparr>state := (state g)[0 := True, 2 := False]\<rparr>)
        else if keyeq e LEFT then Returned (g\<lparr>state := (state g)[1 := False, 3 := True]\<rparr>)
        else if keyeq e DOWN then Returned (g\<lparr>state := (state g)[0 := False, 2 := True]\<rparr>)
        else if keyeq e RIGHT then Returned (g\<lparr>state := (state g)[1 := True, 3 := False]\<rparr>)
        else Returned g)
       (\<lambda>g'. Returned (set_control g'))"

text \<open>
  \<^verbatim>\<open>publish_cb\<close> (lines 73-93). The message starts with both fields 0 (lines 78-80). Lines
  82-85 read \<^verbatim>\<open>max_velocity\<close> when flag 0 or flag 2 is set, lines 87-90 read
  \<^verbatim>\<open>max_steering_angle\<close> when flag 1 or flag 3 is set; a read of a name that is not bound
  raises \<open>NameError\<close> there, which is before the test of \<^verbatim>\<open>state_pub\<close> on line 92. The
  function assigns no global.
\<close>

definition publish_cb :: "env \<Rightarrow> world \<Rightarrow> outcome" where
  "publish_cb en g =
     (if \<not> control g then Returned g
      else
        let a0 = \<lparr>speed = 0, steering_angle = 0\<rparr> in
        case (if state g ! 0 then map_option (\<lambda>v. a0\<lparr>speed := v\<rparr>) (max_velocity g)
              else if state g ! 2 then map_option (\<lambda>v. a0\<lparr>speed := - v\<rparr>) (max_velocity g)
              else Some a0) of
          None \<Rightarrow> Raised (NameError ''max_velocity'') g
        | Some a1 \<Rightarrow>
            (case (if state g ! 1
                   then map_option (\<lambda>s. a1\<lparr>steering_angle := s\<rparr>) (max_steering_angle g)
                   else if state g ! 3
                   then map_option (\<lambda>s. a1\<lparr>steering_angle := - s\<rparr>) (max_steering_angle g)
                   else Some a1) of
               None \<Rightarrow> Raised (NameError ''max_steering_angle'') g
             | Some a2 \<Rightarrow>
                 (case state_pub g of
                    None \<Rightarrow> Returned g
                  | Some p \<Rightarrow> extern en (Publish p a2) g)))"

subsection \<open>Event sequences\<close>

text \<open>
  \<^verbatim>\<open>main\<close> binds \<^verbatim>\<open><KeyPress>\<close> to \<^verbatim>\<open>keydown\<close> and \<^verbatim>\<open><KeyRelease>\<close> to \<^verbatim>\<open>keyup\<close>
  (lines 120-121). A sequence of events runs the handlers one after the other; whether a
  handler returned or raised, the next one sees the globals it left.
\<close>

datatype input =
    KeyPress event
  | KeyRelease event

fun step :: "env \<Rightarrow> world \<Rightarrow> input \<Rightarrow> world" where
  "step en g (KeyPress e) = world_of (keydown en e g)"
| "step en g (KeyRelease e) = keyup e g"

definition run :: "env \<Rightarrow> world \<Rightarrow> input list \<Rightarrow> world" where
  "run en g evs = foldl (step en) g evs"

text \<open>The event of a plain key: character and key symbol are both the key's letter.\<close>

definition key :: "string \<Rightarrow> event" where
  "key c = \<lparr>char = c, keysym = c\<rparr>"

text \<open>An environment in which no call raises.\<close>

definition quiet :: env where
  "quiet h c = None"

text \<open>
  Two concrete sets of globals. \<open>imported\<close> is what the module-level statements leave
  (lines 22-27): nothing of \<^verbatim>\<open>main\<close> has run, so there is no publisher, no window, and the
  two maxima are not bound. \<open>sample\<close> is what \<^verbatim>\<open>main\<close> has set up when the event loop
  starts (lines 110-118), with the default parameters 2.0 and 0.6.
\<close>

definition imported :: world where
  "imported = \<lparr>state = [False, False, False, False],
               state_pub = None,
               root_window = None,
               control = False,
               max_velocity = None,
               max_steering_angle = None,
               calls = []\<rparr>"

definition sample :: world where
  "sample = \<lparr>state = [False, False, False, False],
             state_pub = Some (Publisher ''/ackermann_cmd_mux/output''),
             root_window = Some Tk,
             control = False,
             max_velocity = Some 2,
             max_steering_angle = Some (6 / 10),
             calls = []\<rparr>"

subsection \<open>Which keys are down\<close>

text \<open>
  The script keeps no record of the keys themselves, only the four flags. To compare the
  flags with the keyboard, \<open>keys_held\<close> follows the events: a press adds the directional keys
  the event stands for, a release removes them. This is the keyboard's side of the
  comparison, not a function of the script.
\<close>

fun hold :: "string list \<Rightarrow> input \<Rightarrow> string list" where
  "hold h (KeyPress e) = h @ filter (\<lambda>c. keyeq e c \<and> c \<notin> set h) [UP, LEFT, DOWN, RIGHT]"
| "hold h (KeyRelease e) = filter (\<lambda>c. \<not> keyeq e c) h"

definition keys_held :: "input list \<Rightarrow> string list" where
  "keys_held evs = foldl hold [] evs"

subsection \<open>What the key handlers maintain\<close>

text \<open>
  The list has four entries, forward and backward are not both set, left and right are not
  both set, and \<open>control\<close> is the disjunction of the four entries.
\<close>

definition tracked :: "world \<Rightarrow> bool" where
  "tracked g \<longleftrightarrow>
     length (state g) = 4 \<and>
     \<not> (state g ! 0 \<and> state g ! 2) \<and>
     \<not> (state g ! 1 \<and> state g ! 3) \<and>
     control g = (state g ! 0 \<or> state g ! 1 \<or> state g ! 2 \<or> state g ! 3)"

subsection \<open>A toolkit that refuses a second destroy\<close>


section \<open>Properties\<close>

subsection \<open>Helper facts\<close>

lemmas key_defs = UP_def LEFT_def DOWN_def RIGHT_def QUIT_def

lemma sum_flags_pos:
  "(sum_list (map of_bool [f, l, b, r]) > (0::int)) \<longleftrightarrow> f \<or> l \<or> b \<or> r"
  by (cases f; cases l; cases b; cases r) simp_all

lemma world_of_extern: "world_of (extern en c g) = g\<lparr>calls := calls g @ [c]\<rparr>"
  by (simp add: extern_def split: option.split)

lemma extern_cases:
  obtains "extern en c g = Returned (g\<lparr>calls := calls g @ [c]\<rparr>)"
  | x where "extern en c g = Raised x (g\<lparr>calls := calls g @ [c]\<rparr>)"
  by (cases "en (calls g) c") (simp_all add: extern_def)

lemma shutdown_world:
  "world_of (shutdown en g) = g\<lparr>calls := calls (world_of (shutdown en g))\<rparr>"
proof (cases "root_window g")
  case None
  then show ?thesis by (simp add: shutdown_def world_of_extern)
next
  case (Some w)
  show ?thesis
  proof (cases rule: extern_cases [of en "Destroy w" g])
    case 1
    with Some show ?thesis by (simp add: shutdown_def world_of_extern)
  next
    case (2 x)
    with Some show ?thesis by (simp add: shutdown_def)
  qed
qed

lemma shutdown_keeps:
  "state (world_of (shutdown en g)) = state g" "control (world_of (shutdown en g)) = control g"
proof -
  have "state (world_of (shutdown en g)) = state (g\<lparr>calls := calls (world_of (shutdown en g))\<rparr>)"
    by (rule arg_cong [OF shutdown_world])
  then show "state (world_of (shutdown en g)) = state g" by simp
  have "control (world_of (shutdown en g)) = control (g\<lparr>calls := calls (world_of (shutdown en g))\<rparr>)"
    by (rule arg_cong [OF shutdown_world])
  then show "control (world_of (shutdown en g)) = control g" by simp
qed

lemma four_flags:
  assumes "length (xs :: bool list) = 4"
  obtains f l b r where "xs = [f, l, b, r]"
proof -
  from assms obtain f ys where 1: "xs = f # ys" "length ys = 3" by (cases xs) simp_all
  then obtain l zs where 2: "ys = l # zs" "length zs = 2" by (cases ys) simp_all
  then obtain b ws where 3: "zs = b # ws" "length ws = 1" by (cases zs) simp_all
  then obtain r where 4: "ws = [r]" by (cases ws) simp_all
  from 1 2 3 4 have "xs = [f, l, b, r]" by simp
  then show thesis by (rule that)
qed

lemma tracked_flags:
  "state g = [f, l, b, r] \<Longrightarrow>
     tracked g \<longleftrightarrow> \<not> (f \<and> b) \<and> \<not> (l \<and> r) \<and> control g = (f \<or> l \<or> b \<or> r)"
  by (simp add: tracked_def)

lemma keyup_state:
  "state g = [f, l, b, r] \<Longrightarrow>
     keyup e g =
       (if keyeq e UP then g\<lparr>state := [False, l, b, r], control := l \<or> b \<or> r\<rparr>
        else if keyeq e LEFT then g\<lparr>state := [f, False, b, r], control := f \<or> b \<or> r\<rparr>
        else if keyeq e DOWN then g\<lparr>state := [f, l, False, r], control := f \<or> l \<or> r\<rparr>
        else if keyeq e RIGHT then g\<lparr>state := [f, l, b, False], control := f \<or> l \<or> b\<rparr>
        else g\<lparr>control := f \<or> l \<or> b \<or> r\<rparr>)"
  by (simp add: keyup_def set_control_def sum_flags_pos)

lemma keyup_tracked:
  assumes "tracked g"
  shows "tracked (keyup e g)"
proof -
  from assms have "length (state g) = 4" by (simp add: tracked_def)
  then obtain f l b r where s: "state g = [f, l, b, r]" by (rule four_flags)
  with assms have t: "\<not> (f \<and> b)" "\<not> (l \<and> r)" "control g = (f \<or> l \<or> b \<or> r)"
    by (simp_all add: tracked_flags)
  from s t show ?thesis
    by (simp add: keyup_state [OF s] tracked_def)
qed

lemma keydown_state:
  "state g = [f, l, b, r] \<Longrightarrow> \<not> keyeq e QUIT \<Longrightarrow>
     keydown en e g = Returned
       (if keyeq e UP then g\<lparr>state := [True, l, False, r], control := True\<rparr>
        else if keyeq e LEFT then g\<lparr>state := [f, False, b, True], control := True\<rparr>
        else if keyeq e DOWN then g\<lparr>state := [False, l, True, r], control := True\<rparr>
        else if keyeq e RIGHT then g\<lparr>state := [f, True, b, False], control := True\<rparr>
        else g\<lparr>control := f \<or> l \<or> b \<or> r\<rparr>)"
  by (simp add: keydown_def set_control_def sum_flags_pos)

lemma keydown_quit:
  assumes "keyeq e QUIT" and "state g = [f, l, b, r]"
  shows "state (world_of (keydown en e g)) = [f, l, b, r]"
    and "control g = (f \<or> l \<or> b \<or> r) \<Longrightarrow>
           control (world_of (keydown en e g)) = (f \<or> l \<or> b \<or> r)"
    and "keydown en e g = Returned g' \<Longrightarrow> control g' = (f \<or> l \<or> b \<or> r)"
proof -
  have k: "state (world_of (shutdown en g)) = [f, l, b, r]"
    "control (world_of (shutdown en g)) = control g"
    using shutdown_keeps [of en g] assms(2) by simp_all
  show "state (world_of (keydown en e g)) = [f, l, b, r]"
    using k assms(1) by (cases "shutdown en g") (simp_all add: keydown_def set_control_def)
  show "control g = (f \<or> l \<or> b \<or> r) \<Longrightarrow>
           control (world_of (keydown en e g)) = (f \<or> l \<or> b \<or> r)"
    using k assms(1)
    by (cases "shutdown en g") (simp_all add: keydown_def set_control_def sum_flags_pos)
  show "keydown en e g = Returned g' \<Longrightarrow> control g' = (f \<or> l \<or> b \<or> r)"
    using k assms(1)
    by (cases "shutdown en g") (auto simp add: keydown_def set_control_def sum_flags_pos)
qed

lemma keydown_tracked:
  assumes "tracked g"
  shows "tracked (world_of (keydown en e g))"
proof -
  from assms have "length (state g) = 4" by (simp add: tracked_def)
  then obtain f l b r where s: "state g = [f, l, b, r]" by (rule four_flags)
  with assms have t: "\<not> (f \<and> b)" "\<not> (l \<and> r)" "control g = (f \<or> l \<or> b \<or> r)"
    by (simp_all add: tracked_flags)
  show ?thesis
  proof (cases "keyeq e QUIT")
    case True
    from keydown_quit(1) [OF True s] keydown_quit(2) [OF True s t(3)] t(1,2)
    show ?thesis by (simp add: tracked_def)
  next
    case False
    from s t show ?thesis
      by (simp add: keydown_state [OF s False] tracked_def)
  qed
qed

lemma step_tracked: "tracked g \<Longrightarrow> tracked (step en g i)"
  by (cases i) (simp_all add: keydown_tracked keyup_tracked)

lemma run_tracked: "tracked g \<Longrightarrow> tracked (run en g evs)"
  unfolding run_def by (induction evs arbitrary: g) (simp_all add: step_tracked)

lemma publish_cb_inactive: "\<not> control g \<Longrightarrow> publish_cb en g = Returned g"
  by (simp add: publish_cb_def)

lemma publish_cb_active:
  "control g \<Longrightarrow> state g = [f, l, b, r] \<Longrightarrow>
     publish_cb en g =
       (case (if f then map_option (\<lambda>v. \<lparr>speed = v, steering_angle = 0\<rparr>) (max_velocity g)
              else if b then map_option (\<lambda>v. \<lparr>speed = - v, steering_angle = 0\<rparr>) (max_velocity g)
              else Some \<lparr>speed = 0, steering_angle = 0\<rparr>) of
          None \<Rightarrow> Raised (NameError ''max_velocity'') g
        | Some a1 \<Rightarrow>
            (case (if l then map_option (\<lambda>s. a1\<lparr>steering_angle := s\<rparr>) (max_steering_angle g)
                   else if r then map_option (\<lambda>s. a1\<lparr>steering_angle := - s\<rparr>) (max_steering_angle g)
                   else Some a1) of
               None \<Rightarrow> Raised (NameError ''max_steering_angle'') g
             | Some a2 \<Rightarrow>
                 (case state_pub g of
                    None \<Rightarrow> Returned g
                  | Some p \<Rightarrow> extern en (Publish p a2) g)))"
  by (cases f; cases b; cases l; cases r; cases "max_velocity g"; cases "max_steering_angle g";
      cases "state_pub g")
    (simp_all add: publish_cb_def)

lemma run_from_rest:
  "tracked (run en (g\<lparr>state := [False, False, False, False], control := False\<rparr>) evs)"
  by (rule run_tracked) (simp add: tracked_def)

subsection \<open>The key-press table\<close>

text \<open>
  Claim C1. For every key state \<open>[f, l, b, r]\<close>, a press that is not the quit key and that
  the handler takes for the forward key sets forward to true and backward to false; one taken
  for the left key sets left to false and right to true; one taken for the backward key sets
  forward to false and backward to true; one taken for the right key sets left to true and
  right to false. The other two flags keep their values, \<open>control\<close> becomes true, and no
  other global changes.
\<close>

theorem keydown_transition_table:
  assumes "state g = [f, l, b, r]" and "\<not> keyeq e QUIT"
  shows "(keyeq e UP \<longrightarrow>
            keydown en e g = Returned (g\<lparr>state := [True, l, False, r], control := True\<rparr>)) \<and>
         (\<not> keyeq e UP \<and> keyeq e LEFT \<longrightarrow>
            keydown en e g = Returned (g\<lparr>state := [f, False, b, True], control := True\<rparr>)) \<and>
         (\<not> keyeq e UP \<and> \<not> keyeq e LEFT \<and> keyeq e DOWN \<longrightarrow>
            keydown en e g = Returned (g\<lparr>state := [False, l, True, r], control := True\<rparr>)) \<and>
         (\<not> keyeq e UP \<and> \<not> keyeq e LEFT \<and> \<not> keyeq e DOWN \<and> keyeq e RIGHT \<longrightarrow>
            keydown en e g = Returned (g\<lparr>state := [f, True, b, False], control := True\<rparr>))"
  using assms by (simp add: keydown_def set_control_def sum_flags_pos)

theorem keydown_transition_table_witness:
  "keydown quiet (key UP) (sample\<lparr>state := [False, True, True, False]\<rparr>)
     = Returned (sample\<lparr>state := [True, True, False, False], control := True\<rparr>) \<and>
   keydown quiet (key LEFT) (sample\<lparr>state := [False, True, True, False]\<rparr>)
     = Returned (sample\<lparr>state := [False, False, True, True], control := True\<rparr>) \<and>
   keydown quiet (key DOWN) (sample\<lparr>state := [True, False, False, True]\<rparr>)
     = Returned (sample\<lparr>state := [False, False, True, True], control := True\<rparr>) \<and>
   keydown quiet (key RIGHT) (sample\<lparr>state := [True, False, False, True]\<rparr>)
     = Returned (sample\<lparr>state := [True, True, False, False], control := True\<rparr>)"
  using keydown_transition_table
          [of "sample\<lparr>state := [False, True, True, False]\<rparr>" False True True False "key UP" quiet]
        keydown_transition_table
          [of "sample\<lparr>state := [False, True, True, False]\<rparr>" False True True False "key LEFT" quiet]
        keydown_transition_table
          [of "sample\<lparr>state := [True, False, False, True]\<rparr>" True False False True "key DOWN" quiet]
        keydown_transition_table
          [of "sample\<lparr>state := [True, False, False, True]\<rparr>" True False False True "key RIGHT" quiet]
  by (simp add: keyeq_def key_def key_defs)

subsection \<open>Key release\<close>

text \<open>
  What a release does, for every key state \<open>[f, l, b, r]\<close>: a release taken for the forward
  key clears index 0, for the left key index 1, for the backward key index 2, for the right
  key index 3, and the other three flags keep their values. Where \<open>control\<close> is the
  disjunction of the flags, as the handlers keep it, the release changes none of the globals
  exactly when the flag at that index was already false.
\<close>

lemma keyup_clears_index:
  assumes "state g = [f, l, b, r]"
  shows "(keyeq e UP \<longrightarrow> state (keyup e g) = [False, l, b, r]) \<and>
         (\<not> keyeq e UP \<and> keyeq e LEFT \<longrightarrow> state (keyup e g) = [f, False, b, r]) \<and>
         (\<not> keyeq e UP \<and> \<not> keyeq e LEFT \<and> keyeq e DOWN \<longrightarrow>
            state (keyup e g) = [f, l, False, r]) \<and>
         (\<not> keyeq e UP \<and> \<not> keyeq e LEFT \<and> \<not> keyeq e DOWN \<and> keyeq e RIGHT \<longrightarrow>
            state (keyup e g) = [f, l, b, False]) \<and>
         (control g = (f \<or> l \<or> b \<or> r) \<longrightarrow>
            (keyeq e UP \<longrightarrow> (keyup e g = g \<longleftrightarrow> \<not> f)) \<and>
            (\<not> keyeq e UP \<and> keyeq e LEFT \<longrightarrow> (keyup e g = g \<longleftrightarrow> \<not> l)) \<and>
            (\<not> keyeq e UP \<and> \<not> keyeq e LEFT \<and> keyeq e DOWN \<longrightarrow> (keyup e g = g \<longleftrightarrow> \<not> b)) \<and>
            (\<not> keyeq e UP \<and> \<not> keyeq e LEFT \<and> \<not> keyeq e DOWN \<and> keyeq e RIGHT \<longrightarrow>
               (keyup e g = g \<longleftrightarrow> \<not> r)))"
proof -
  have up: "keyeq e UP \<Longrightarrow> state (keyup e g) = [False, l, b, r]"
    and le: "\<not> keyeq e UP \<Longrightarrow> keyeq e LEFT \<Longrightarrow> state (keyup e g) = [f, False, b, r]"
    and dn: "\<not> keyeq e UP \<Longrightarrow> \<not> keyeq e LEFT \<Longrightarrow> keyeq e DOWN \<Longrightarrow>
               state (keyup e g) = [f, l, False, r]"
    and ri: "\<not> keyeq e UP \<Longrightarrow> \<not> keyeq e LEFT \<Longrightarrow> \<not> keyeq e DOWN \<Longrightarrow> keyeq e RIGHT \<Longrightarrow>
               state (keyup e g) = [f, l, b, False]"
    by (simp_all add: keyup_state [OF assms])
  have fwd: "state (keyup e g) = [f, l, b, r]" if "keyup e g = g"
    using that assms by simp
  have rev: "keyup e g = g"
    if "control g = (f \<or> l \<or> b \<or> r)" and "state (keyup e g) = [f, l, b, r]"
    using that assms by (auto simp add: keyup_def set_control_def sum_flags_pos split: if_splits)
  have same: "keyup e g = g \<longleftrightarrow> state (keyup e g) = [f, l, b, r]"
    if "control g = (f \<or> l \<or> b \<or> r)"
    using fwd rev [OF that] by blast
  have "keyeq e UP \<longrightarrow> (keyup e g = g \<longleftrightarrow> \<not> f)" if "control g = (f \<or> l \<or> b \<or> r)"
    using up by (simp add: same [OF that])
  moreover have "\<not> keyeq e UP \<and> keyeq e LEFT \<longrightarrow> (keyup e g = g \<longleftrightarrow> \<not> l)"
    if "control g = (f \<or> l \<or> b \<or> r)"
    using le by (simp add: same [OF that])
  moreover have "\<not> keyeq e UP \<and> \<not> keyeq e LEFT \<and> keyeq e DOWN \<longrightarrow> (keyup e g = g \<longleftrightarrow> \<not> b)"
    if "control g = (f \<or> l \<or> b \<or> r)"
    using dn by (simp add: same [OF that])
  moreover have "\<not> keyeq e UP \<and> \<not> keyeq e LEFT \<and> \<not> keyeq e DOWN \<and> keyeq e RIGHT \<longrightarrow>
      (keyup e g = g \<longleftrightarrow> \<not> r)"
    if "control g = (f \<or> l \<or> b \<or> r)"
    using ri by (simp add: same [OF that])
  ultimately show ?thesis using up le dn ri by blast
qed

text \<open>
  Claim C7 says that releasing a key that was never pressed is a no-op. The handlers do not
  keep this for the left and right keys. \<open>keyup\<close> clears index 1 for the left key and index
  3 for the right key (lines 42-47), but \<open>keydown\<close> sets index 3 for the left key and index
  1 for the right key (lines 61-69); for the forward and backward keys press and release
  act on the same index. So after a press of the right key alone, with the left key never
  pressed and not held, a release of the left key clears the flag that the press has set and
  turns \<open>control\<close> off.
\<close>

theorem keyup_unpressed_key:
  "LEFT \<notin> set (keys_held [KeyPress (key RIGHT)]) \<and>
   run quiet sample [KeyPress (key RIGHT)]
     = sample\<lparr>state := [False, True, False, False], control := True\<rparr> \<and>
   keyup (key LEFT) (run quiet sample [KeyPress (key RIGHT)])
     = sample\<lparr>state := [False, False, False, False], control := False\<rparr> \<and>
   keyup (key LEFT) (run quiet sample [KeyPress (key RIGHT)])
     \<noteq> run quiet sample [KeyPress (key RIGHT)]"
  by (simp add: keys_held_def run_def keydown_def keyup_def set_control_def keyeq_def key_def
        key_defs sample_def)

text \<open>
  Claim C8. From the all-false key state, press forward, press backward, release backward
  ends with forward false, backward false and \<open>control\<close> false: the press of backward has
  cleared forward, and the release does not bring it back. After the first two events
  backward alone is set.
\<close>

theorem forward_backward_release:
  "run en (g\<lparr>state := [False, False, False, False], control := False\<rparr>)
       [KeyPress (key UP), KeyPress (key DOWN), KeyRelease (key DOWN)]
     = g\<lparr>state := [False, False, False, False], control := False\<rparr> \<and>
   run en (g\<lparr>state := [False, False, False, False], control := False\<rparr>)
       [KeyPress (key UP), KeyPress (key DOWN)]
     = g\<lparr>state := [False, False, True, False], control := True\<rparr>"
  by (simp add: run_def keydown_def keyup_def set_control_def keyeq_def key_def key_defs)

theorem forward_backward_release_witness:
  "run quiet sample [KeyPress (key UP), KeyPress (key DOWN), KeyRelease (key DOWN)] = sample"
  using forward_backward_release [of quiet sample]
  by (simp add: sample_def)

subsection \<open>The publisher tick\<close>

text \<open>
  Claim C3. For every key state \<open>[f, l, b, r]\<close> with at least one flag true, with \<open>control\<close>
  the disjunction of the flags, the publisher set, and each maximum that is read bound
  (\<^verbatim>\<open>max_velocity\<close> to \<open>v\<close> if forward or backward is set, \<^verbatim>\<open>max_steering_angle\<close> to \<open>s\<close> if
  left or right is set), the tick issues exactly one call: the publication of a command
  whose speed is \<open>v\<close> if forward is set, else \<open>- v\<close> if backward is set, else 0, and whose
  steering angle is \<open>s\<close> if left is set, else \<open>- s\<close> if right is set, else 0. With the right
  flag alone and a maximum steering angle of 0.6 the command is speed 0, steering angle
  -0.6.
\<close>

theorem publish_cb_command:
  assumes "state g = [f, l, b, r]" and "control g = (f \<or> l \<or> b \<or> r)"
    and "state_pub g = Some p" and "f \<or> l \<or> b \<or> r"
    and "f \<or> b \<longrightarrow> max_velocity g = Some v"
    and "l \<or> r \<longrightarrow> max_steering_angle g = Some s"
  shows "calls (world_of (publish_cb en g)) =
           calls g @ [Publish p
             \<lparr>speed = (if f then v else if b then - v else 0),
              steering_angle = (if l then s else if r then - s else 0)\<rparr>]
         \<and> (\<not> f \<and> \<not> l \<and> \<not> b \<and> r \<and> s = 6 / 10 \<longrightarrow>
              calls (world_of (publish_cb en g)) =
                calls g @ [Publish p \<lparr>speed = 0, steering_angle = - (6 / 10)\<rparr>])"
proof -
  from assms(2,4) have c: "control g" by simp
  show ?thesis
    using assms(3-6)
    by (cases f; cases b; cases l; cases r)
      (simp_all add: publish_cb_active [OF c assms(1)] world_of_extern)
qed

theorem publish_cb_command_witness:
  "calls (world_of (publish_cb quiet
      (sample\<lparr>state := [False, False, False, True], control := True, max_velocity := None\<rparr>)))
     = [Publish (Publisher ''/ackermann_cmd_mux/output'') \<lparr>speed = 0, steering_angle = - (6 / 10)\<rparr>] \<and>
   calls (world_of (publish_cb quiet (sample\<lparr>state := [True, True, False, False], control := True\<rparr>)))
     = [Publish (Publisher ''/ackermann_cmd_mux/output'') \<lparr>speed = 2, steering_angle = 6 / 10\<rparr>]"
  using publish_cb_command
          [of "sample\<lparr>state := [False, False, False, True], control := True, max_velocity := None\<rparr>"
              False False False True "Publisher ''/ackermann_cmd_mux/output''" 0 "6 / 10" quiet]
        publish_cb_command
          [of "sample\<lparr>state := [True, True, False, False], control := True\<rparr>"
              True True False False "Publisher ''/ackermann_cmd_mux/output''" 2 "6 / 10" quiet]
  by (simp add: sample_def)

text \<open>
  When \<open>control\<close> is false the tick returns at once and leaves the globals, the list of calls
  among them, as they were. With \<open>control\<close> the disjunction of the flags this is the case of
  all four flags false, and a tick that issues a call has found a flag set. The same holds
  after every sequence of key events from the all-false state.
\<close>

lemma publish_cb_idle:
  "(\<not> control g \<longrightarrow> publish_cb en g = Returned g) \<and>
   (state g = [f, l, b, r] \<and> control g = (f \<or> l \<or> b \<or> r) \<longrightarrow>
      (\<not> f \<and> \<not> l \<and> \<not> b \<and> \<not> r \<longrightarrow> publish_cb en g = Returned g) \<and>
      (calls (world_of (publish_cb en g)) \<noteq> calls g \<longrightarrow> f \<or> l \<or> b \<or> r))"
  by (auto simp add: publish_cb_inactive)

lemma publish_cb_needs_flag:
  assumes "g' = run en (g\<lparr>state := [False, False, False, False], control := False\<rparr>) evs"
    and "calls (world_of (publish_cb en' g')) \<noteq> calls g'"
  shows "state g' ! 0 \<or> state g' ! 1 \<or> state g' ! 2 \<or> state g' ! 3"
proof -
  from assms(1) have t: "tracked g'" by (simp add: run_from_rest)
  have "control g'"
  proof (rule ccontr)
    assume "\<not> control g'"
    then have "publish_cb en' g' = Returned g'" by (rule publish_cb_inactive)
    with assms(2) show False by simp
  qed
  with t show ?thesis unfolding tracked_def by blast
qed

text \<open>
  Claim C4 says that a message is published only while at least one directional key is
  held. The handlers do not keep this for the left and right keys: a press of the right key
  sets index 1 (line 68), its release clears index 3 (line 47). After press and release of
  the right key no key is held, yet flag 1 and \<open>control\<close> are still set, and the tick
  publishes speed 0 with the full steering angle.
\<close>

theorem publish_cb_after_release:
  "keys_held [KeyPress (key RIGHT), KeyRelease (key RIGHT)] = [] \<and>
   run quiet sample [KeyPress (key RIGHT), KeyRelease (key RIGHT)]
     = sample\<lparr>state := [False, True, False, False], control := True\<rparr> \<and>
   publish_cb quiet (run quiet sample [KeyPress (key RIGHT), KeyRelease (key RIGHT)])
     = Returned (sample\<lparr>state := [False, True, False, False], control := True,
         calls := [Publish (Publisher ''/ackermann_cmd_mux/output'')
                     \<lparr>speed = 0, steering_angle = 6 / 10\<rparr>]\<rparr>)"
  by (simp add: keys_held_def run_def keydown_def keyup_def set_control_def keyeq_def key_def
        key_defs sample_def publish_cb_def extern_def quiet_def)

text \<open>
  Claim C9, as stated, fails: the test of the publisher handle (line 92) comes after the
  reads of the two maxima (lines 82-90), and before \<^verbatim>\<open>main\<close> has run these names are not
  bound either. In the module as imported, after a press of the forward key, the tick
  raises \<open>NameError\<close>.
\<close>

theorem publish_cb_unbound_raises:
  "state_pub (run quiet imported [KeyPress (key UP)]) = None \<and>
   publish_cb quiet (run quiet imported [KeyPress (key UP)])
     = Raised (NameError ''max_velocity'')
         (imported\<lparr>state := [True, False, False, False], control := True\<rparr>)"
  by (simp add: run_def keydown_def set_control_def keyeq_def key_def key_defs imported_def
        publish_cb_def)

text \<open>
  Claim C9, amended. With the publisher handle unset the tick issues no call and changes no
  global, whatever the key state \<open>[f, l, b, r]\<close>. It returns without an exception when
  \<open>control\<close> is false, and also when each maximum it reads is bound: \<^verbatim>\<open>max_velocity\<close> if
  forward or backward is set, \<^verbatim>\<open>max_steering_angle\<close> if left or right is set. Otherwise it
  raises \<open>NameError\<close> before it reaches the test of the handle: for \<^verbatim>\<open>max_velocity\<close> if that
  is read unbound, else for \<^verbatim>\<open>max_steering_angle\<close>.
\<close>

theorem publish_cb_no_publisher:
  assumes "state g = [f, l, b, r]" and "state_pub g = None"
  shows "publish_cb en g =
           (if control g \<and> (f \<or> b) \<and> max_velocity g = None
              then Raised (NameError ''max_velocity'') g
            else if control g \<and> (l \<or> r) \<and> max_steering_angle g = None
              then Raised (NameError ''max_steering_angle'') g
            else Returned g)"
proof (cases "control g")
  case False
  then show ?thesis by (simp add: publish_cb_inactive)
next
  case True
  show ?thesis
    using True assms(2)
    by (cases "max_velocity g"; cases "max_steering_angle g"; cases f; cases b; cases l; cases r)
      (simp_all add: publish_cb_active [OF True assms(1)])
qed

theorem publish_cb_no_publisher_witness:
  "publish_cb quiet (sample\<lparr>state := [True, False, False, False], control := True, state_pub := None\<rparr>)
     = Returned (sample\<lparr>state := [True, False, False, False], control := True, state_pub := None\<rparr>) \<and>
   publish_cb quiet (sample\<lparr>state := [True, False, False, True], control := True, state_pub := None,
                             max_steering_angle := None\<rparr>)
     = Raised (NameError ''max_steering_angle'')
         (sample\<lparr>state := [True, False, False, True], control := True, state_pub := None,
                  max_steering_angle := None\<rparr>) \<and>
   publish_cb quiet imported = Returned imported"
  using publish_cb_no_publisher
          [of "sample\<lparr>state := [True, False, False, False], control := True, state_pub := None\<rparr>"
              True False False False quiet]
        publish_cb_no_publisher
          [of "sample\<lparr>state := [True, False, False, True], control := True, state_pub := None,
                      max_steering_angle := None\<rparr>"
              True False False True quiet]
        publish_cb_no_publisher [of imported False False False False quiet]
  by (simp add: sample_def imported_def)

text \<open>
  Claim C10. The tick changes neither the four flags nor \<open>control\<close>, whether it publishes,
  returns early or lets an exception escape; of all the globals only the list of calls
  issued can differ afterwards.
\<close>

theorem publish_cb_frame:
  "state (world_of (publish_cb en g)) = state g \<and>
   control (world_of (publish_cb en g)) = control g \<and>
   world_of (publish_cb en g) = g\<lparr>calls := calls (world_of (publish_cb en g))\<rparr>"
  by (cases "control g"; cases "state g ! 0"; cases "state g ! 2"; cases "state g ! 1";
      cases "state g ! 3"; cases "max_velocity g"; cases "max_steering_angle g";
      cases "state_pub g")
    (simp_all add: publish_cb_def world_of_extern)

theorem publish_cb_frame_witness:
  "state (world_of (publish_cb quiet (sample\<lparr>state := [True, False, False, False], control := True\<rparr>)))
     = [True, False, False, False] \<and>
   control (world_of (publish_cb quiet (sample\<lparr>state := [True, False, False, False], control := True\<rparr>)))"
  using publish_cb_frame [of quiet "sample\<lparr>state := [True, False, False, False], control := True\<rparr>"]
  by simp

subsection \<open>Invariants of the key handlers\<close>

text \<open>
  Claim C2. Start from all four flags false and \<open>control\<close> false, as the module sets them,
  and run any sequence of key presses and releases. After every prefix of the sequence the
  list still has four entries, forward (index 0) and backward (index 2) are not both true,
  and left (index 1) and right (index 3) are not both true. This holds whatever the calls
  made by a press of the quit key do.
\<close>

theorem opposite_flags_exclusive:
  "length (state (run en (g\<lparr>state := [False, False, False, False], control := False\<rparr>)
                   (take n evs))) = 4 \<and>
   \<not> (state (run en (g\<lparr>state := [False, False, False, False], control := False\<rparr>)
                (take n evs)) ! 0 \<and>
      state (run en (g\<lparr>state := [False, False, False, False], control := False\<rparr>)
                (take n evs)) ! 2) \<and>
   \<not> (state (run en (g\<lparr>state := [False, False, False, False], control := False\<rparr>)
                (take n evs)) ! 1 \<and>
      state (run en (g\<lparr>state := [False, False, False, False], control := False\<rparr>)
                (take n evs)) ! 3)"
proof -
  have "tracked (run en (g\<lparr>state := [False, False, False, False], control := False\<rparr>)
                  (take n evs))"
    by (rule run_from_rest)
  then show ?thesis unfolding tracked_def by blast
qed

theorem opposite_flags_exclusive_witness:
  "state (run quiet (sample\<lparr>state := [False, False, False, False], control := False\<rparr>)
           (take 3 [KeyPress (key UP), KeyPress (key LEFT), KeyPress (key DOWN), KeyRelease (key LEFT)]))
     = [False, False, True, True]"
  using opposite_flags_exclusive
          [of quiet sample 3 "[KeyPress (key UP), KeyPress (key LEFT), KeyPress (key DOWN), KeyRelease (key LEFT)]"]
  by (simp add: run_def keydown_def keyup_def set_control_def keyeq_def key_def key_defs)

text \<open>
  Claim C5. From any list of four flags, \<open>control\<close> is the disjunction of the four flags
  after \<open>keyup\<close>, and after \<open>keydown\<close> whenever it returns. Starting from all flags false and
  \<open>control\<close> false, the equality holds after every sequence of key presses and releases,
  a press of the quit key whose calls raise included: that press leaves both the flags and
  \<open>control\<close> as they were.
\<close>

theorem control_is_or_of_flags:
  "(state g = [f, l, b, r] \<longrightarrow>
      control (keyup e g) =
        (state (keyup e g) ! 0 \<or> state (keyup e g) ! 1 \<or>
         state (keyup e g) ! 2 \<or> state (keyup e g) ! 3) \<and>
      (\<forall>g'. keydown en e g = Returned g' \<longrightarrow>
         control g' = (state g' ! 0 \<or> state g' ! 1 \<or> state g' ! 2 \<or> state g' ! 3))) \<and>
   control (run en (g\<lparr>state := [False, False, False, False], control := False\<rparr>) evs) =
     (state (run en (g\<lparr>state := [False, False, False, False], control := False\<rparr>) evs) ! 0 \<or>
      state (run en (g\<lparr>state := [False, False, False, False], control := False\<rparr>) evs) ! 1 \<or>
      state (run en (g\<lparr>state := [False, False, False, False], control := False\<rparr>) evs) ! 2 \<or>
      state (run en (g\<lparr>state := [False, False, False, False], control := False\<rparr>) evs) ! 3)"
proof (intro conjI impI allI)
  assume s: "state g = [f, l, b, r]"
  show "control (keyup e g) =
        (state (keyup e g) ! 0 \<or> state (keyup e g) ! 1 \<or>
         state (keyup e g) ! 2 \<or> state (keyup e g) ! 3)"
    using s by (simp add: keyup_state [OF s])
next
  fix g'
  assume s: "state g = [f, l, b, r]" and r: "keydown en e g = Returned g'"
  show "control g' = (state g' ! 0 \<or> state g' ! 1 \<or> state g' ! 2 \<or> state g' ! 3)"
  proof (cases "keyeq e QUIT")
    case True
    from keydown_quit(1) [OF True s, of en] r have "state g' = [f, l, b, r]" by simp
    moreover from keydown_quit(3) [OF True s r] have "control g' = (f \<or> l \<or> b \<or> r)" .
    ultimately show ?thesis by simp
  next
    case False
    from r keydown_state [OF s False, of en]
    have "g' = (if keyeq e UP then g\<lparr>state := [True, l, False, r], control := True\<rparr>
        else if keyeq e LEFT then g\<lparr>state := [f, False, b, True], control := True\<rparr>
        else if keyeq e DOWN then g\<lparr>state := [False, l, True, r], control := True\<rparr>
        else if keyeq e RIGHT then g\<lparr>state := [f, True, b, False], control := True\<rparr>
        else g\<lparr>control := f \<or> l \<or> b \<or> r\<rparr>)" by simp
    with s show ?thesis by simp
  qed
next
  have "tracked (run en (g\<lparr>state := [False, False, False, False], control := False\<rparr>) evs)"
    by (rule run_from_rest)
  then show "control (run en (g\<lparr>state := [False, False, False, False], control := False\<rparr>) evs) =
     (state (run en (g\<lparr>state := [False, False, False, False], control := False\<rparr>) evs) ! 0 \<or>
      state (run en (g\<lparr>state := [False, False, False, False], control := False\<rparr>) evs) ! 1 \<or>
      state (run en (g\<lparr>state := [False, False, False, False], control := False\<rparr>) evs) ! 2 \<or>
      state (run en (g\<lparr>state := [False, False, False, False], control := False\<rparr>) evs) ! 3)"
    unfolding tracked_def by blast
qed

theorem control_is_or_of_flags_witness:
  "keydown quiet (key RIGHT) (sample\<lparr>state := [True, False, False, True]\<rparr>)
     = Returned (sample\<lparr>state := [True, True, False, False], control := True\<rparr>) \<and>
   control (keyup (key UP) (sample\<lparr>state := [True, False, False, False], control := True\<rparr>)) = False \<and>
   control (run quiet (sample\<lparr>state := [False, False, False, False], control := False\<rparr>)
             [KeyPress (key UP), KeyPress (key QUIT), KeyRelease (key UP)]) = False"
  using control_is_or_of_flags
          [where g = "sample\<lparr>state := [True, False, False, True]\<rparr>" and f = True and l = False
             and b = False and r = True and e = "key RIGHT" and en = quiet
             and evs = "[KeyPress (key UP), KeyPress (key QUIT), KeyRelease (key UP)]"]
        control_is_or_of_flags
          [where g = "sample\<lparr>state := [True, False, False, False], control := True\<rparr>" and f = True
             and l = False and b = False and r = False and e = "key UP" and en = quiet
             and evs = "[KeyPress (key UP), KeyPress (key QUIT), KeyRelease (key UP)]"]
  by (simp add: run_def keydown_def keyup_def shutdown_def extern_def quiet_def set_control_def
        keyeq_def key_def key_defs sample_def)

subsection \<open>Shutdown called twice\<close>




end
